theory Spec2Isabelle
  imports Complex_Main "HOL-Library.Multiset"
begin

section \<open>Exceptions\<close>

text \<open>
  The Python exceptions that the modelled code can raise. \<open>SinkError\<close> stands for
  whatever the external logger or summary writer raises.
\<close>

datatype exc =
    IndexError
  | ZeroDivisionError
  | AttributeError
  | RuntimeError
  | SinkError

section \<open>Task sequence generator (utils/data/cifar100.py)\<close>

text \<open>
  \<^verbatim>\<open>random.shuffle(x)\<close> of the standard library walks \<open>i\<close> from \<open>len(x) - 1\<close>
  down to \<open>1\<close>, draws \<open>j = randbelow(i + 1)\<close> and swaps \<open>x[i]\<close> with \<open>x[j]\<close>.
  The random source is a parameter: \<open>draw i\<close> is the number drawn at index \<open>i\<close>,
  reduced into the range \<open>randbelow\<close> guarantees.
\<close>

definition swap :: "nat \<Rightarrow> nat \<Rightarrow> 'a list \<Rightarrow> 'a list" where
  "swap i j x = x[i := x ! j, j := x ! i]"

fun shuffle_from :: "(nat \<Rightarrow> nat) \<Rightarrow> nat \<Rightarrow> 'a list \<Rightarrow> 'a list" where
  "shuffle_from draw 0 x = x"
| "shuffle_from draw (Suc k) x =
     shuffle_from draw k (swap (Suc k) (draw (Suc k) mod (Suc k + 1)) x)"

definition shuffle :: "(nat \<Rightarrow> nat) \<Rightarrow> 'a list \<Rightarrow> 'a list" where
  "shuffle draw x = shuffle_from draw (length x - 1) x"

text \<open>Python's \<open>xs[a:b]\<close> for \<open>0 \<le> a\<close>, \<open>0 \<le> b\<close>.\<close>

definition slice :: "nat \<Rightarrow> nat \<Rightarrow> 'a list \<Rightarrow> 'a list" where
  "slice a b xs = take (b - a) (drop a xs)"

definition fixed_cifar100_tasks :: "string list list" where
  "fixed_cifar100_tasks = [
    [''apple'', ''aquarium_fish'', ''baby'', ''bear'', ''beaver'', ''bed'', ''bee'', ''beetle'', ''bicycle'', ''bottle''],
    [''bowl'', ''boy'', ''bridge'', ''bus'', ''butterfly'', ''camel'', ''can'', ''castle'', ''caterpillar'', ''cattle''],
    [''chair'', ''chimpanzee'', ''clock'', ''cloud'', ''cockroach'', ''couch'', ''crab'', ''crocodile'', ''cup'', ''dinosaur''],
    [''dolphin'', ''elephant'', ''flatfish'', ''forest'', ''fox'', ''girl'', ''hamster'', ''house'', ''kangaroo'', ''keyboard''],
    [''lamp'', ''lawn_mower'', ''leopard'', ''lion'', ''lizard'', ''lobster'', ''man'', ''maple_tree'', ''motorcycle'', ''mountain''],
    [''mouse'', ''mushroom'', ''oak_tree'', ''orange'', ''orchid'', ''otter'', ''palm_tree'', ''pear'', ''pickup_truck'', ''pine_tree''],
    [''plain'', ''plate'', ''poppy'', ''porcupine'', ''possum'', ''rabbit'', ''raccoon'', ''ray'', ''road'', ''rocket''],
    [''rose'', ''sea'', ''seal'', ''shark'', ''shrew'', ''skunk'', ''skyscraper'', ''snail'', ''snake'', ''spider''],
    [''squirrel'', ''streetcar'', ''sunflower'', ''sweet_pepper'', ''table'', ''tank'', ''telephone'', ''television'', ''tiger'', ''tractor''],
    [''train'', ''trout'', ''tulip'', ''turtle'', ''wardrobe'', ''whale'', ''willow_tree'', ''wolf'', ''woman'', ''worm'']]"

text \<open>
  \<^verbatim>\<open>get_cifar100_tasks(cls_names, task_num, fixed_tasks)\<close>. The first component of
  the result is the caller's list object \<open>cls_names\<close> as it is after the call, the
  second is what the call returns or raises. With \<open>fixed_tasks\<close> the table is returned
  at once. Otherwise the list is shuffled in place, then
  \<^verbatim>\<open>range(len(cls_names) // task_num)\<close> is evaluated (floor division, which raises
  for a zero divisor and gives an empty range for a negative quotient), and the
  \<open>i\<close>-th group is the slice \<^verbatim>\<open>cls_names[i * 10: (i + 1) * 10]\<close>.
\<close>

definition get_cifar100_tasks ::
  "(nat \<Rightarrow> nat) \<Rightarrow> string list \<Rightarrow> int \<Rightarrow> bool \<Rightarrow> string list \<times> (exc + string list list)" where
  "get_cifar100_tasks draw cls_names task_num fixed_tasks =
     (if fixed_tasks then (cls_names, Inr fixed_cifar100_tasks)
      else
        let cls_names' = shuffle draw cls_names in
        if task_num = 0 then (cls_names', Inl ZeroDivisionError)
        else (cls_names',
              Inr (map (\<lambda>i. slice (i * 10) ((i + 1) * 10) cls_names')
                     [0 ..< nat (int (length cls_names') div task_num)])))"

section \<open>Incremental model state (model/iCaRL.py)\<close>

text \<open>
  Objects that the model shares by reference (the ResNet feature extractors and the
  \<open>nn.Linear\<close> weight vectors) live in two stores indexed by reference; a field of
  the model holds a reference, or \<open>None\<close>. An extractor object is its parameters, of
  an arbitrary type \<open>'p\<close>; a linear layer (made with \<open>bias=False\<close>) is its weight
  matrix, one row per output. \<open>next_ref\<close> is the next unused reference. A task is a
  list of class names and is treated as a value.
\<close>

type_synonym ref = nat
type_synonym task = "string list"
type_synonym weight = "real list list"

record 'p iCaRL =
  feature_extractor :: "ref option"
  feature_dim :: nat
  previous_feature_extractor :: "ref option"
  weight_vectors :: "ref list"
  current_weight_vectors :: "ref option"
  exemplar_means :: "(string \<times> real list) list"
  current_task :: "task option"
  learned_classes :: "string list"
  extractors :: "ref \<Rightarrow> 'p"
  linears :: "ref \<Rightarrow> weight"
  next_ref :: ref

text \<open>\<^verbatim>\<open>iCaRL.__init__\<close>: \<open>resnet\<close> is the pretrained backbone's parameters.\<close>

definition init_iCaRL :: "'p \<Rightarrow> nat \<Rightarrow> 'p iCaRL" where
  "init_iCaRL resnet d =
     \<lparr>feature_extractor = Some 0,
      feature_dim = d,
      previous_feature_extractor = None,
      weight_vectors = [],
      current_weight_vectors = None,
      exemplar_means = [],
      current_task = None,
      learned_classes = [],
      extractors = (\<lambda>_. resnet),
      linears = (\<lambda>_. []),
      next_ref = 1\<rparr>"

text \<open>
  \<^verbatim>\<open>nn.Linear(in_features, out_features, bias=False)\<close>: an \<open>out_features\<close> by
  \<open>in_features\<close> matrix whose entries come from the random initialiser \<open>init\<close>.
\<close>

definition new_linear :: "(nat \<Rightarrow> nat \<Rightarrow> real) \<Rightarrow> nat \<Rightarrow> nat \<Rightarrow> weight" where
  "new_linear init in_features out_features =
     map (\<lambda>r. map (\<lambda>c. init r c) [0 ..< in_features]) [0 ..< out_features]"

text \<open>
  \<^verbatim>\<open>dst[:n, :] = src[:, :]\<close> on weight matrices of equal width. The target has
  \<open>min n (length dst)\<close> rows; the source must have as many, or a single row that is
  broadcast; any other row count is a shape error (\<open>None\<close>).
\<close>

definition assign_rows :: "weight \<Rightarrow> nat \<Rightarrow> weight \<Rightarrow> weight option" where
  "assign_rows dst n src =
     (let rows = min n (length dst) in
      if length src = rows then Some (src @ drop rows dst)
      else if length src = 1 then Some (replicate rows (hd src) @ drop rows dst)
      else None)"

text \<open>
  The part of \<^verbatim>\<open>set_new_task\<close> before its \<^verbatim>\<open>try\<close>. It returns the state and the
  exception raised, if any; on an exception the assignments made so far stay. The
  device lookup \<^verbatim>\<open>self.feature_extractor.conv1\<close> fails when no extractor is active.
\<close>

definition set_new_task_enter ::
  "(nat \<Rightarrow> nat \<Rightarrow> real) \<Rightarrow> task \<Rightarrow> 'p iCaRL \<Rightarrow> 'p iCaRL \<times> exc option" where
  "set_new_task_enter init task s =
     (let num_cls = length task;
          s1 = s\<lparr>current_task := Some task\<rparr>
      in case feature_extractor s1 of
           None \<Rightarrow> (s1, Some AttributeError)
         | Some fe \<Rightarrow>
             let w = next_ref s1;
                 fresh = new_linear init (feature_dim s1) (num_cls + length (learned_classes s1));
                 s2 = s1\<lparr>current_weight_vectors := Some w,
                         linears := (linears s1)(w := fresh),
                         next_ref := Suc w\<rparr>;
                 copied =
                   (if length (weight_vectors s2) \<noteq> 0
                    then assign_rows fresh (length (learned_classes s2))
                           (linears s2 (last (weight_vectors s2)))
                    else Some fresh)
             in (case copied of
                   None \<Rightarrow> (s2, Some RuntimeError)
                 | Some w' \<Rightarrow>
                     (let s3 = s2\<lparr>linears := (linears s2)(w := w'),
                                  weight_vectors := weight_vectors s2 @ [w]\<rparr>;
                          c = next_ref s3
                      in (s3\<lparr>previous_feature_extractor := Some c,
                              extractors := (extractors s3)(c := extractors s3 fe),
                              next_ref := Suc c\<rparr>, None))))"

text \<open>The \<^verbatim>\<open>finally\<close> block of \<^verbatim>\<open>set_new_task\<close>.\<close>

definition set_new_task_exit :: "task \<Rightarrow> 'p iCaRL \<Rightarrow> 'p iCaRL" where
  "set_new_task_exit task s = s\<lparr>learned_classes := learned_classes s @ task\<rparr>"

text \<open>
  The scope \<^verbatim>\<open>with model.set_new_task(task): body\<close>. The body is any computation on
  the model; it returns the state it leaves and the exception it raises, if any. When
  the set-up raises, the body and the \<^verbatim>\<open>finally\<close> block do not run.
\<close>

definition set_new_task ::
  "(nat \<Rightarrow> nat \<Rightarrow> real) \<Rightarrow> task \<Rightarrow> ('p iCaRL \<Rightarrow> 'p iCaRL \<times> exc option) \<Rightarrow> 'p iCaRL
     \<Rightarrow> 'p iCaRL \<times> exc option" where
  "set_new_task init task body s =
     (case set_new_task_enter init task s of
        (s1, Some e) \<Rightarrow> (s1, Some e)
      | (s1, None) \<Rightarrow> (case body s1 of (s2, r) \<Rightarrow> (set_new_task_exit task s2, r)))"

text \<open>
  A run of the learning loop on the model: one \<^verbatim>\<open>set_new_task\<close> scope per task, in
  order, each opened after the previous one has closed; an exception ends the run.
  The random initial weights and the body of a scope may depend on its task.
\<close>

fun learn_tasks ::
  "(task \<Rightarrow> nat \<Rightarrow> nat \<Rightarrow> real) \<Rightarrow> (task \<Rightarrow> 'p iCaRL \<Rightarrow> 'p iCaRL \<times> exc option) \<Rightarrow> task list
     \<Rightarrow> 'p iCaRL \<Rightarrow> 'p iCaRL \<times> exc option" where
  "learn_tasks init body [] s = (s, None)"
| "learn_tasks init body (t # ts) s =
     (case set_new_task (init t) t (body t) s of
        (s', Some e) \<Rightarrow> (s', Some e)
      | (s', None) \<Rightarrow> learn_tasks init body ts s')"

text \<open>
  A body that only trains: it may change the contents of the stored objects and
  create new ones, but it assigns none of the model's fields that hold the heads, the
  learned classes or the active extractor, and it keeps the number of rows of every
  weight matrix.
\<close>

definition trains_only :: "(task \<Rightarrow> 'p iCaRL \<Rightarrow> 'p iCaRL \<times> exc option) \<Rightarrow> bool" where
  "trains_only body \<longleftrightarrow>
     (\<forall>t s. weight_vectors (fst (body t s)) = weight_vectors s \<and>
            learned_classes (fst (body t s)) = learned_classes s \<and>
            feature_extractor (fst (body t s)) = feature_extractor s \<and>
            next_ref s \<le> next_ref (fst (body t s)) \<and>
            (\<forall>r. length (linears (fst (body t s)) r) = length (linears s r)))"

text \<open>
  The invariant of the state between two scopes: an extractor is active, and the newest
  weight vector, if there is one, is an object made before \<open>next_ref\<close> with one row
  per learned class.
\<close>

definition heads_ok :: "'p iCaRL \<Rightarrow> bool" where
  "heads_ok s \<longleftrightarrow>
     feature_extractor s \<noteq> None \<and>
     (weight_vectors s \<noteq> [] \<longrightarrow>
        last (weight_vectors s) < next_ref s \<and>
        length (linears s (last (weight_vectors s))) = length (learned_classes s))"

text \<open>
  \<^verbatim>\<open>use_previous_model(feature_extractor, weight_vectors)\<close> around a body. Python's
  \<^verbatim>\<open>self.weight_vectors[-2]\<close> raises \<open>IndexError\<close> on fewer than two entries; that
  happens inside the \<^verbatim>\<open>try\<close>, after the extractor has been swapped.
\<close>

definition use_previous_model ::
  "ref option \<Rightarrow> ref option \<Rightarrow> ('p iCaRL \<Rightarrow> 'p iCaRL \<times> exc option) \<Rightarrow> 'p iCaRL
     \<Rightarrow> 'p iCaRL \<times> exc option" where
  "use_previous_model fe_arg wv_arg body s =
     (let current_fe = feature_extractor s;
          current_wv = current_weight_vectors s;
          restore = (\<lambda>t. t\<lparr>feature_extractor := current_fe,
                            current_weight_vectors := current_wv\<rparr>);
          s1 = s\<lparr>feature_extractor :=
                   (case fe_arg of Some f \<Rightarrow> Some f | None \<Rightarrow> previous_feature_extractor s)\<rparr>;
          n = length (weight_vectors s1)
      in case (case wv_arg of
                 Some w \<Rightarrow> Inr w
               | None \<Rightarrow> if n < 2 then Inl IndexError else Inr (weight_vectors s1 ! (n - 2))) of
           Inl e \<Rightarrow> (restore s1, Some e)
         | Inr w \<Rightarrow>
             (case body (s1\<lparr>current_weight_vectors := Some w\<rparr>) of
                (s2, r) \<Rightarrow> (restore s2, r)))"

text \<open>
  \<^verbatim>\<open>forward\<close> and \<^verbatim>\<open>get_preds\<close> are not embedded: what they return is decided by
  float32 tensor arithmetic (rounding, the order of summation inside \<^verbatim>\<open>norm\<close>, NaN
  from a zero norm, broadcasting), which the source leaves to the tensor library.
\<close>

section \<open>Task learner and continual-learning evaluator (src/main.py)\<close>

text \<open>
  The logger and the summary writer are external objects. A call to one of them is a
  \<open>sink_call\<close> (\<^verbatim>\<open>logger.info\<close> in the epoch loop and in the evaluator,
  \<^verbatim>\<open>writer.add_scalar\<close> with tag, value and step, \<^verbatim>\<open>writer.add_figure\<close> with
  the plotted matrix and step); the sink decides, per call, whether it raises. Every
  function below returns, next to its result, the list of sink calls it has made, in
  order; a call that raises is the last one made.
\<close>

type_synonym matrix = "real list list"

datatype sink_call =
    Logger_info_epoch nat real real
  | Logger_info_test nat real task
  | Add_scalar string real nat
  | Add_figure matrix nat

type_synonym sink = "sink_call \<Rightarrow> exc option"

datatype hparam = HInt int | HReal real | HStr string

text \<open>
  What \<^verbatim>\<open>task_learner\<close> works on: the model object it trains in place, its
  closure variable \<open>num_task_learned\<close> and the module's \<open>hparams_dict\<close>.
\<close>

record 'm learner_state =
  model :: 'm
  num_task_learned :: nat
  hparams_dict :: "string \<rightharpoonup> hparam"

definition num_epoch :: nat where
  "num_epoch = 50"

definition log_times :: nat where
  "log_times = 5"

text \<open>
  One round of the epoch loop. \<open>train_epoch\<close> and \<open>test_epoch\<close> are the numerical
  passes over the two loaders (parameters here): each returns the model as it leaves
  it and either the loss or accuracy or the exception it raised.
\<close>

definition epoch_body ::
  "sink \<Rightarrow> ('m \<Rightarrow> 'm \<times> (exc + real)) \<Rightarrow> ('m \<Rightarrow> 'm \<times> (exc + real)) \<Rightarrow> nat \<Rightarrow> nat
     \<Rightarrow> 'm learner_state \<Rightarrow> 'm learner_state \<times> sink_call list \<times> exc option" where
  "epoch_body sink train_epoch test_epoch task_id epoch st =
     (case train_epoch (model st) of
        (m1, Inl e) \<Rightarrow> (st\<lparr>model := m1\<rparr>, [], Some e)
      | (m1, Inr train_loss) \<Rightarrow>
          (case test_epoch m1 of
             (m2, Inl e) \<Rightarrow> (st\<lparr>model := m2\<rparr>, [], Some e)
           | (m2, Inr test_acc) \<Rightarrow>
               (let st2 = st\<lparr>model := m2\<rparr>;
                    c0 = Logger_info_epoch (epoch + 1) train_loss test_acc;
                    c1 = Add_scalar ''task-learning/train-loss'' train_loss
                           (epoch + task_id * num_epoch);
                    c2 = Add_scalar ''task-learning/test-top1-acc'' test_acc
                           (epoch + task_id * num_epoch);
                    logging = ((epoch + 1) mod (num_epoch div log_times) = 0);
                    logged = (if logging then [c0] else [])
                in case (if logging then sink c0 else None) of
                     Some e \<Rightarrow> (st2, logged, Some e)
                   | None \<Rightarrow>
                       (case sink c1 of
                          Some e \<Rightarrow> (st2, logged @ [c1], Some e)
                        | None \<Rightarrow> (st2, logged @ [c1, c2], sink c2)))))"

fun epochs ::
  "sink \<Rightarrow> ('m \<Rightarrow> 'm \<times> (exc + real)) \<Rightarrow> ('m \<Rightarrow> 'm \<times> (exc + real)) \<Rightarrow> nat \<Rightarrow> nat list
     \<Rightarrow> 'm learner_state \<Rightarrow> 'm learner_state \<times> sink_call list \<times> exc option" where
  "epochs sink train_epoch test_epoch task_id [] st = (st, [], None)"
| "epochs sink train_epoch test_epoch task_id (epoch # rest) st =
     (case epoch_body sink train_epoch test_epoch task_id epoch st of
        (st1, cs, Some e) \<Rightarrow> (st1, cs, Some e)
      | (st1, cs, None) \<Rightarrow>
          (case epochs sink train_epoch test_epoch task_id rest st1 of
             (st2, cs', r) \<Rightarrow> (st2, cs @ cs', r)))"

text \<open>
  \<^verbatim>\<open>task_learner\<close>: the epoch loop over \<^verbatim>\<open>range(num_epoch)\<close>, then the
  hyperparameters of the first task learned (the optimizer is
  \<^verbatim>\<open>SGD(lr=1e-3, momentum=0.9)\<close>, whose other defaults are zero) and the counter.
\<close>

definition task_learner ::
  "sink \<Rightarrow> ('m \<Rightarrow> 'm \<times> (exc + real)) \<Rightarrow> ('m \<Rightarrow> 'm \<times> (exc + real)) \<Rightarrow> nat
     \<Rightarrow> 'm learner_state \<Rightarrow> 'm learner_state \<times> sink_call list \<times> exc option" where
  "task_learner sink train_epoch test_epoch task_id st =
     (case epochs sink train_epoch test_epoch task_id [0 ..< num_epoch] st of
        (st1, cs, Some e) \<Rightarrow> (st1, cs, Some e)
      | (st1, cs, None) \<Rightarrow>
          (let st2 =
                 (if num_task_learned st1 = 0
                  then st1\<lparr>hparams_dict := (hparams_dict st1)
                         (''num_epoch'' \<mapsto> HInt (int num_epoch),
                          ''optim'' \<mapsto> HStr ''SGD'',
                          ''lr'' \<mapsto> HReal (1 / 1000),
                          ''momentum'' \<mapsto> HReal (9 / 10),
                          ''weight_decay'' \<mapsto> HInt 0,
                          ''dampening'' \<mapsto> HInt 0)\<rparr>
                  else st1)
           in (st2\<lparr>num_task_learned := num_task_learned st2 + 1\<rparr>, cs, None)))"

text \<open>
  The four metric functions of \<^verbatim>\<open>utils.helper\<close> are parameters: each maps an
  accuracy matrix to a number.
\<close>

record metric_fns =
  get_backward_transfer :: "matrix \<Rightarrow> real"
  get_forgetting_rate :: "matrix \<Rightarrow> real"
  get_last_setp_accuracy :: "matrix \<Rightarrow> real"
  get_average_incremental_accuracy :: "matrix \<Rightarrow> real"

text \<open>\<^verbatim>\<open>np.zeros((task_num, task_num))\<close>.\<close>

definition zeros :: "nat \<Rightarrow> matrix" where
  "zeros task_num = replicate task_num (replicate task_num 0)"

text \<open>
  The loop \<^verbatim>\<open>for i, previous_loader in enumerate(learned_task_loaders)\<close> of the
  evaluator. Its only active statement is the \<^verbatim>\<open>logger.info\<close> call, whose message
  reads \<^verbatim>\<open>cl_matrix[i, task_id]\<close> and then \<^verbatim>\<open>learned_tasks[i]\<close>; both raise
  \<open>IndexError\<close> out of range. The two statements that tested the model and stored
  the accuracy are comments in the source.
\<close>

fun test_on_tasks ::
  "sink \<Rightarrow> matrix \<Rightarrow> nat \<Rightarrow> task list \<Rightarrow> nat list \<Rightarrow> sink_call list \<times> exc option" where
  "test_on_tasks sink cl_matrix task_id learned_tasks [] = ([], None)"
| "test_on_tasks sink cl_matrix task_id learned_tasks (i # rest) =
     (if \<not> (i < length cl_matrix \<and> task_id < length (cl_matrix ! i)) then ([], Some IndexError)
      else if \<not> i < length learned_tasks then ([], Some IndexError)
      else
        let c = Logger_info_test i (cl_matrix ! i ! task_id) (learned_tasks ! i) in
        case sink c of
          Some e \<Rightarrow> ([c], Some e)
        | None \<Rightarrow>
            (case test_on_tasks sink cl_matrix task_id learned_tasks rest of
               (cs, r) \<Rightarrow> (c # cs, r)))"

text \<open>The four \<^verbatim>\<open>writer.add_scalar\<close> calls made when \<^verbatim>\<open>task_id >= 1\<close>.\<close>

definition log_metrics ::
  "sink \<Rightarrow> metric_fns \<Rightarrow> matrix \<Rightarrow> nat
     \<Rightarrow> sink_call list \<times> (exc + real \<times> real \<times> real \<times> real)" where
  "log_metrics sink fns current_cl_matrix task_id =
     (let bwt = get_backward_transfer fns current_cl_matrix;
          forget = get_forgetting_rate fns current_cl_matrix;
          last' = get_last_setp_accuracy fns current_cl_matrix;
          avg = get_average_incremental_accuracy fns current_cl_matrix;
          c1 = Add_scalar ''continual-learning-metrics/backward-transfer'' bwt task_id;
          c2 = Add_scalar ''continual-learning-metrics/forgetting-rate'' forget task_id;
          c3 = Add_scalar ''continual-learning-metrics/last-step-accuracy'' last' task_id;
          c4 = Add_scalar ''continual-learning-metrics/average-incremental-accuracy''
                 avg task_id
      in case sink c1 of
           Some e \<Rightarrow> ([c1], Inl e)
         | None \<Rightarrow>
             (case sink c2 of
                Some e \<Rightarrow> ([c1, c2], Inl e)
              | None \<Rightarrow>
                  (case sink c3 of
                     Some e \<Rightarrow> ([c1, c2, c3], Inl e)
                   | None \<Rightarrow>
                       (case sink c4 of
                          Some e \<Rightarrow> ([c1, c2, c3, c4], Inl e)
                        | None \<Rightarrow> ([c1, c2, c3, c4], Inr (bwt, forget, last', avg))))))"

text \<open>
  \<^verbatim>\<open>continual_learning_ability_tester(task_id, learned_tasks, learned_task_loaders,
  model)\<close> with the matrix \<open>cl_matrix\<close> of its closure, which no statement assigns.
  The task index is a natural number, as \<^verbatim>\<open>enumerate\<close> produces it. The return
  value is the pair of the matrix and, for \<^verbatim>\<open>task_id >= 1\<close>, the dictionary of the
  four metrics (in insertion order), else \<open>None\<close>.
\<close>

definition continual_learning_ability_tester ::
  "sink \<Rightarrow> metric_fns \<Rightarrow> matrix \<Rightarrow> nat \<Rightarrow> task list \<Rightarrow> 'l list \<Rightarrow> 'm
     \<Rightarrow> sink_call list \<times> (exc + matrix \<times> (string \<times> real) list option)" where
  "continual_learning_ability_tester sink fns cl_matrix task_id learned_tasks
       learned_task_loaders mdl =
     (case test_on_tasks sink cl_matrix task_id learned_tasks
             [0 ..< length learned_task_loaders] of
        (cs, Some e) \<Rightarrow> (cs, Inl e)
      | (cs, None) \<Rightarrow>
          (case (if task_id \<ge> 1
                 then (case log_metrics sink fns
                              (map (take (task_id + 1)) (take (task_id + 1) cl_matrix)) task_id of
                         (cs1, Inl e) \<Rightarrow> (cs1, Inl e)
                       | (cs1, Inr m) \<Rightarrow> (cs1, Inr (Some m)))
                 else ([], Inr None)) of
             (cs1, Inl e) \<Rightarrow> (cs @ cs1, Inl e)
           | (cs1, Inr ms) \<Rightarrow>
               (let c = Add_figure cl_matrix task_id in
                case sink c of
                  Some e \<Rightarrow> (cs @ cs1 @ [c], Inl e)
                | None \<Rightarrow>
                    (cs @ cs1 @ [c],
                     Inr (cl_matrix,
                          (case ms of
                             Some (bwt, forget, last', avg) \<Rightarrow>
                               Some [(''BWT'', bwt), (''Forgetting Rate'', forget),
                                     (''Last Step Acc'', last'), (''Average Acc'', avg)]
                           | None \<Rightarrow> None))))))"

text \<open>
  \<^verbatim>\<open>get_continual_learning_ability_tester(task_num, num_cls_per_task)\<close>: the tester
  closed over a fresh matrix of zeros.
\<close>

definition get_continual_learning_ability_tester ::
  "sink \<Rightarrow> metric_fns \<Rightarrow> nat \<Rightarrow> nat \<Rightarrow> task list \<Rightarrow> 'l list \<Rightarrow> 'm
     \<Rightarrow> sink_call list \<times> (exc + matrix \<times> (string \<times> real) list option)" where
  "get_continual_learning_ability_tester sink fns task_num =
     continual_learning_ability_tester sink fns (zeros task_num)"

text \<open>
  \<open>raised\<close> reads off a result the exception, if it is one. \<open>propagates sink cs r\<close>
  says of the calls \<open>cs\<close> made by a computation that ended with \<open>r\<close> (an exception or
  \<open>None\<close>): every call either succeeded or raised exactly \<open>r\<close>.
\<close>

definition raised :: "exc + 'a \<Rightarrow> exc option" where
  "raised r = (case r of Inl e \<Rightarrow> Some e | Inr v \<Rightarrow> None)"

definition propagates :: "sink \<Rightarrow> sink_call list \<Rightarrow> exc option \<Rightarrow> bool" where
  "propagates sink cs r \<longleftrightarrow> (\<forall>c \<in> set cs. sink c = None \<or> sink c = r)"

section \<open>Concrete inputs\<close>

text \<open>A random source that always draws \<open>0\<close>.\<close>

definition draw_zero :: "nat \<Rightarrow> nat" where
  "draw_zero i = 0"

text \<open>An initialiser that fills row \<open>r\<close> of every new weight matrix with \<open>r\<close>.\<close>

definition init_rows :: "task \<Rightarrow> nat \<Rightarrow> nat \<Rightarrow> real" where
  "init_rows t r c = real r"

text \<open>
  Three scope bodies: one that trains (it adds one to every entry of the active weight
  vector), the same followed by an exception, and one that does nothing.
\<close>

definition sgd_body :: "task \<Rightarrow> unit iCaRL \<Rightarrow> unit iCaRL \<times> exc option" where
  "sgd_body t s =
     (case current_weight_vectors s of
        None \<Rightarrow> (s, Some AttributeError)
      | Some w \<Rightarrow> (s\<lparr>linears := (linears s)(w := map (map (\<lambda>x. x + 1)) (linears s w))\<rparr>, None))"

definition failing_body :: "task \<Rightarrow> unit iCaRL \<Rightarrow> unit iCaRL \<times> exc option" where
  "failing_body t s = (fst (sgd_body t s), Some RuntimeError)"

definition idle_body :: "unit iCaRL \<Rightarrow> unit iCaRL \<times> exc option" where
  "idle_body s = (s, None)"

text \<open>A sink that accepts every call and one that raises on every call.\<close>

definition quiet_sink :: sink where
  "quiet_sink c = None"

definition broken_sink :: sink where
  "broken_sink c = Some SinkError"

text \<open>Epoch passes on a model that is a step counter, and a learner state to start from.\<close>

definition train_ok :: "nat \<Rightarrow> nat \<times> (exc + real)" where
  "train_ok m = (Suc m, Inr 1)"

definition test_ok :: "nat \<Rightarrow> nat \<times> (exc + real)" where
  "test_ok m = (m, Inr (1 / 2))"

definition learner0 :: "nat learner_state" where
  "learner0 = \<lparr>model = 0, num_task_learned = 0, hparams_dict = Map.empty\<rparr>"

text \<open>Metric functions that read one entry of the matrix each.\<close>

definition corner_metrics :: metric_fns where
  "corner_metrics =
     \<lparr>get_backward_transfer = (\<lambda>m. m ! 0 ! 0),
      get_forgetting_rate = (\<lambda>m. m ! 0 ! 1),
      get_last_setp_accuracy = (\<lambda>m. m ! 1 ! 0),
      get_average_incremental_accuracy = (\<lambda>m. m ! 1 ! 1)\<rparr>"

text \<open>A random source whose every draw picks the index it is asked at.\<close>

definition draw_self :: "nat \<Rightarrow> nat" where
  "draw_self i = i"

text \<open>
  A sink whose logger raises in the epoch loop and nowhere else, and a sink whose
  \<^verbatim>\<open>add_figure\<close> raises and nothing else.
\<close>

definition logger_sink :: sink where
  "logger_sink c = (case c of Logger_info_epoch n l a \<Rightarrow> Some SinkError | _ \<Rightarrow> None)"

definition figure_sink :: sink where
  "figure_sink c = (case c of Add_figure m k \<Rightarrow> Some SinkError | _ \<Rightarrow> None)"

section \<open>Properties of the task sequence generator\<close>

lemma length_swap: "length (swap i j x) = length x"
  by (simp add: swap_def)

lemma mset_swap_list: "i < length x \<Longrightarrow> j < length x \<Longrightarrow> mset (swap i j x) = mset x"
  unfolding swap_def by (rule mset_swap)

lemma length_shuffle_from: "length (shuffle_from draw k x) = length x"
  by (induction k arbitrary: x) (simp_all add: length_swap)

lemma mset_shuffle_from: "k < length x \<Longrightarrow> mset (shuffle_from draw k x) = mset x"
proof (induction k arbitrary: x)
  case 0
  then show ?case by simp
next
  case (Suc k)
  have "draw (Suc k) mod (Suc k + 1) < Suc k + 1"
    by (rule mod_less_divisor) simp
  then have j: "draw (Suc k) mod (Suc k + 1) < length x"
    using Suc.prems by linarith
  have "mset (swap (Suc k) (draw (Suc k) mod (Suc k + 1)) x) = mset x"
    using Suc.prems j by (simp add: mset_swap_list)
  moreover have "k < length (swap (Suc k) (draw (Suc k) mod (Suc k + 1)) x)"
    using Suc.prems by (simp add: length_swap)
  ultimately show ?case
    using Suc.IH by simp
qed

lemma mset_shuffle: "mset (shuffle draw x) = mset x"
proof (cases x)
  case Nil
  then show ?thesis by (simp add: shuffle_def)
next
  case (Cons a as)
  then show ?thesis by (simp add: shuffle_def mset_shuffle_from)
qed

lemma length_shuffle: "length (shuffle draw x) = length x"
  by (simp add: shuffle_def length_shuffle_from)

text \<open>
  Without \<open>fixed_tasks\<close> and for a task count other than zero, the number of groups
  is the floor of the class count over the task count, and no group has more than ten
  names, whatever the two numbers are.
\<close>

lemma get_cifar100_tasks_groups:
  assumes "task_num \<noteq> 0"
  shows "\<exists>groups. snd (get_cifar100_tasks draw cls_names task_num False) = Inr groups
           \<and> length groups = nat (int (length cls_names) div task_num)
           \<and> (\<forall>g \<in> set groups. length g \<le> 10)"
  using assms by (auto simp: get_cifar100_tasks_def Let_def slice_def length_shuffle)

lemma concat_chunks:
  "length xs \<le> n * k \<Longrightarrow> concat (map (\<lambda>i. take k (drop (i * k) xs)) [0 ..< n]) = xs"
proof (induction n arbitrary: xs)
  case 0
  then show ?case by simp
next
  case (Suc n)
  have "concat (map (\<lambda>i. take k (drop (i * k) xs)) [0 ..< Suc n]) =
        take k xs @ concat (map (\<lambda>i. take k (drop (Suc i * k) xs)) [0 ..< n])"
    by (simp add: upt_conv_Cons map_Suc_upt [symmetric] comp_def del: upt_Suc)
  also have "\<dots> = take k xs @ concat (map (\<lambda>i. take k (drop (i * k) (drop k xs))) [0 ..< n])"
    by (simp add: add.commute)
  also have "concat (map (\<lambda>i. take k (drop (i * k) (drop k xs))) [0 ..< n]) = drop k xs"
    using Suc.prems by (intro Suc.IH) simp
  finally show ?case by simp
qed

text \<open>
  With a hundred distinct names and ten tasks, the configuration of the fixed table,
  the groups are a partition: ten groups of ten that, put end to end, are the shuffled
  list, so no name is in two groups and every name is in one.
\<close>

lemma get_cifar100_tasks_default_partition:
  assumes "length cls_names = 100" and "distinct cls_names"
  shows "\<exists>groups. snd (get_cifar100_tasks draw cls_names 10 False) = Inr groups
           \<and> map length groups = replicate 10 10
           \<and> concat groups = shuffle draw cls_names
           \<and> distinct (concat groups)
           \<and> set (concat groups) = set cls_names"
proof -
  have len: "length (shuffle draw cls_names) = 100"
    using assms(1) by (simp add: length_shuffle)
  have g: "snd (get_cifar100_tasks draw cls_names 10 False) =
      Inr (map (\<lambda>i. take 10 (drop (i * 10) (shuffle draw cls_names))) [0 ..< 10])"
    by (simp add: get_cifar100_tasks_def Let_def slice_def len)
  have c: "concat (map (\<lambda>i. take 10 (drop (i * 10) (shuffle draw cls_names))) [0 ..< 10]) =
      shuffle draw cls_names"
    by (rule concat_chunks) (simp add: len)
  have l: "map length (map (\<lambda>i. take (10::nat) (drop (i * 10) (shuffle draw cls_names))) [0 ..< 10])
      = replicate 10 10"
    by (simp add: len upt_conv_Cons numeral_eq_Suc)
  have d: "distinct (shuffle draw cls_names)"
    using assms(2) mset_shuffle [of draw cls_names] by (metis mset_eq_imp_distinct_iff)
  have s: "set (shuffle draw cls_names) = set cls_names"
    using mset_shuffle [of draw cls_names] by (rule mset_eq_setD)
  define groups where
    "groups = map (\<lambda>i. take 10 (drop (i * 10) (shuffle draw cls_names))) [0 ..< 10]"
  have "snd (get_cifar100_tasks draw cls_names 10 False) = Inr groups"
    and "map length groups = replicate 10 10"
    and "concat groups = shuffle draw cls_names"
    unfolding groups_def by (rule g, rule l, rule c)
  moreover have "distinct (concat groups)" and "set (concat groups) = set cls_names"
    unfolding groups_def c by (rule d, rule s)
  ultimately show ?thesis by blast
qed

lemma length_cifar100: "length (concat fixed_cifar100_tasks) = 100"
  by (simp add: fixed_cifar100_tasks_def)

text \<open>
  C3. The claim: for a class list of size \<open>C\<close> and a task count \<open>T\<close> that divides
  \<open>C\<close>, the randomized partition returns \<open>T\<close> pairwise disjoint groups of size
  \<open>C / T\<close> that cover the class list. The code on the hundred class names of the
  fixed table and twenty tasks, whatever the random draws: five groups of ten names
  come back, not twenty groups of five, and half of the names are in no group.
\<close>

theorem get_cifar100_tasks_hundred_classes_twenty_tasks:
  "\<exists>groups. snd (get_cifar100_tasks draw (concat fixed_cifar100_tasks) 20 False) = Inr groups
     \<and> map length groups = [10, 10, 10, 10, 10]"
  by (simp add: get_cifar100_tasks_def Let_def slice_def length_shuffle length_cifar100
        upt_conv_Cons)

text \<open>
  A second run, on six names and two tasks with every draw \<open>0\<close>: three groups come
  back; the first holds all six names and the other two are empty.
\<close>

lemma get_cifar100_tasks_six_classes_two_tasks:
  "snd (get_cifar100_tasks draw_zero [''a'', ''b'', ''c'', ''d'', ''e'', ''f''] 2 False) =
     Inr [[''b'', ''c'', ''d'', ''e'', ''f'', ''a''], [], []]"
  by (simp add: get_cifar100_tasks_def shuffle_def swap_def slice_def draw_zero_def Let_def
        upt_conv_Cons)

text \<open>
  C4. The claim: when the task count does not divide the class count, the generator
  fails with a configuration error. The code at three classes and two tasks returns one
  group and raises nothing.
\<close>

theorem get_cifar100_tasks_indivisible_counterexample:
  "int (length [''a'', ''b'', ''c'']) mod 2 \<noteq> 0 \<and>
   snd (get_cifar100_tasks draw_zero [''a'', ''b'', ''c''] 2 False) = Inr [[''b'', ''c'', ''a'']]"
  by (simp add: get_cifar100_tasks_def shuffle_def swap_def slice_def draw_zero_def Let_def
        upt_conv_Cons)

text \<open>
  C4, as amended: the generator makes no divisibility check. For every class list and
  every task count other than zero that does not divide the class count, in either
  mode, the call raises nothing and returns a list of groups.
\<close>

theorem get_cifar100_tasks_no_configuration_error:
  assumes "task_num \<noteq> 0" and "int (length cls_names) mod task_num \<noteq> 0"
  shows "\<exists>groups. snd (get_cifar100_tasks draw cls_names task_num fixed_tasks) = Inr groups"
  using assms(1) by (simp add: get_cifar100_tasks_def Let_def)

theorem get_cifar100_tasks_no_configuration_error_witness:
  "(2 :: int) \<noteq> 0 \<and> int (length [''a'', ''b'', ''c'']) mod 2 \<noteq> 0 \<and>
   (\<exists>groups. snd (get_cifar100_tasks draw_zero [''a'', ''b'', ''c''] 2 False) = Inr groups)"
proof -
  have h1: "(2 :: int) \<noteq> 0" by simp
  have h2: "int (length [''a'', ''b'', ''c'']) mod 2 \<noteq> 0" by simp
  show ?thesis
    using h1 h2 get_cifar100_tasks_no_configuration_error [OF h1 h2, of draw_zero False]
    by blast
qed

text \<open>
  The shuffle fixes the positions from the last one down: what it puts at index \<open>k\<close>
  stays there. So a list of distinct elements comes out in its former order exactly
  when every draw picks the index it is asked at.
\<close>

lemma swap_same: "swap i i x = x"
  by (simp add: swap_def)

text \<open>Positions above the current index are final.\<close>

lemma shuffle_from_above:
  "k < m \<Longrightarrow> m < length x \<Longrightarrow> shuffle_from draw k x ! m = x ! m"
proof (induction k arbitrary: x)
  case 0
  then show ?case by simp
next
  case (Suc k)
  have j: "draw (Suc k) mod (Suc k + 1) < Suc k + 1"
    by (rule mod_less_divisor) simp
  have "shuffle_from draw k (swap (Suc k) (draw (Suc k) mod (Suc k + 1)) x) ! m =
        swap (Suc k) (draw (Suc k) mod (Suc k + 1)) x ! m"
    using Suc.prems by (intro Suc.IH) (simp_all add: length_swap)
  also have "\<dots> = x ! m"
  proof -
    have "draw (Suc k) mod (Suc k + 1) \<noteq> m" and "Suc k \<noteq> m"
      using Suc.prems j by linarith+
    then show ?thesis by (simp add: swap_def)
  qed
  finally show ?case by simp
qed

lemma shuffle_from_top:
  assumes "Suc k < length x"
  shows "shuffle_from draw (Suc k) x ! Suc k = x ! (draw (Suc k) mod (Suc k + 1))"
proof -
  have j: "draw (Suc k) mod (Suc k + 1) < Suc k + 1"
    by (rule mod_less_divisor) simp
  have "shuffle_from draw k (swap (Suc k) (draw (Suc k) mod (Suc k + 1)) x) ! Suc k =
        swap (Suc k) (draw (Suc k) mod (Suc k + 1)) x ! Suc k"
    using assms by (intro shuffle_from_above) (simp_all add: length_swap)
  also have "\<dots> = x ! (draw (Suc k) mod (Suc k + 1))"
    using assms j by (cases "draw (Suc k) mod (Suc k + 1) = Suc k") (simp_all add: swap_def)
  finally show ?thesis by simp
qed

lemma shuffle_from_unchanged_iff:
  assumes "distinct x"
  shows "k < length x \<Longrightarrow>
         (shuffle_from draw k x = x \<longleftrightarrow> (\<forall>i. 1 \<le> i \<and> i \<le> k \<longrightarrow> draw i mod (i + 1) = i))"
proof (induction k)
  case 0
  then show ?case by simp
next
  case (Suc k)
  define j where "j = draw (Suc k) mod (Suc k + 1)"
  have "j < Suc k + 1"
    unfolding j_def by (rule mod_less_divisor) simp
  then have jlt: "j < length x"
    using Suc.prems by linarith
  have IH: "shuffle_from draw k x = x \<longleftrightarrow> (\<forall>i. 1 \<le> i \<and> i \<le> k \<longrightarrow> draw i mod (i + 1) = i)"
    using Suc by simp
  show ?case
  proof (cases "j = Suc k")
    case True
    have "shuffle_from draw (Suc k) x = shuffle_from draw k (swap (Suc k) j x)"
      by (simp add: j_def)
    then have "shuffle_from draw (Suc k) x = shuffle_from draw k x"
      by (simp only: True swap_same)
    moreover have "(\<forall>i. 1 \<le> i \<and> i \<le> Suc k \<longrightarrow> draw i mod (i + 1) = i) \<longleftrightarrow>
                   (\<forall>i. 1 \<le> i \<and> i \<le> k \<longrightarrow> draw i mod (i + 1) = i)"
      using True by (auto simp: j_def le_Suc_eq)
    ultimately show ?thesis using IH by simp
  next
    case False
    have "shuffle_from draw (Suc k) x ! Suc k = x ! j"
      using shuffle_from_top [OF Suc.prems, of draw] by (simp add: j_def)
    moreover have "x ! j \<noteq> x ! Suc k"
      using assms jlt Suc.prems False by (simp add: nth_eq_iff_index_eq)
    ultimately have "shuffle_from draw (Suc k) x \<noteq> x"
      by metis
    moreover have "\<not> (\<forall>i. 1 \<le> i \<and> i \<le> Suc k \<longrightarrow> draw i mod (i + 1) = i)"
      using False by (auto simp: j_def)
    ultimately show ?thesis by simp
  qed
qed

lemma shuffle_unchanged_iff:
  assumes "distinct x"
  shows "shuffle draw x = x \<longleftrightarrow> (\<forall>i. 1 \<le> i \<and> i < length x \<longrightarrow> draw i mod (i + 1) = i)"
proof (cases x)
  case Nil
  then show ?thesis by (simp add: shuffle_def)
next
  case (Cons a as)
  then have "length x - 1 < length x" by simp
  from shuffle_from_unchanged_iff [OF assms this, of draw]
  show ?thesis
    using Cons by (auto simp: shuffle_def)
qed

text \<open>
  C10. The claim: every call without \<open>fixed_tasks\<close> leaves the caller's list
  reordered rather than unchanged. The code on three names when every draw picks its
  own index, and on a single name: the list is as it was.
\<close>

theorem get_cifar100_tasks_unchanged_counterexample:
  "fst (get_cifar100_tasks draw_self [''a'', ''b'', ''c''] 1 False) = [''a'', ''b'', ''c''] \<and>
   fst (get_cifar100_tasks draw_zero [''a''] 1 False) = [''a'']"
  by (simp add: get_cifar100_tasks_def shuffle_def swap_def draw_self_def draw_zero_def Let_def)

text \<open>
  C10, as amended: without \<open>fixed_tasks\<close> the caller's list is shuffled in place.
  After the call, also one that raises for a task count of zero, it holds the same
  names as before; and when the names are distinct, it is in its former order if and
  only if every draw of the shuffle picks its own index (which is so for fewer than two
  names). In every other case the caller's list has been reordered.
\<close>

theorem get_cifar100_tasks_shuffles_in_place:
  "mset (fst (get_cifar100_tasks draw cls_names task_num False)) = mset cls_names \<and>
   (distinct cls_names \<longrightarrow>
      (fst (get_cifar100_tasks draw cls_names task_num False) = cls_names \<longleftrightarrow>
       (\<forall>i. 1 \<le> i \<and> i < length cls_names \<longrightarrow> draw i mod (i + 1) = i)))"
  using shuffle_unchanged_iff [of cls_names draw]
  by (simp add: get_cifar100_tasks_def Let_def mset_shuffle)

theorem get_cifar100_tasks_shuffles_in_place_witness:
  "distinct [''a'', ''b'', ''c''] \<and>
   mset (fst (get_cifar100_tasks draw_zero [''a'', ''b'', ''c''] 1 False)) =
     mset [''a'', ''b'', ''c''] \<and>
   fst (get_cifar100_tasks draw_zero [''a'', ''b'', ''c''] 1 False) \<noteq> [''a'', ''b'', ''c'']"
proof -
  have d: "distinct [''a'', ''b'', ''c'']" by simp
  have "\<not> (\<forall>i. 1 \<le> i \<and> i < length [''a'', ''b'', ''c''] \<longrightarrow> draw_zero i mod (i + 1) = i)"
  proof
    assume "\<forall>i. 1 \<le> i \<and> i < length [''a'', ''b'', ''c''] \<longrightarrow> draw_zero i mod (i + 1) = i"
    then have "draw_zero 1 mod (1 + 1) = 1" by simp
    then show False by (simp add: draw_zero_def)
  qed
  then show ?thesis
    using d get_cifar100_tasks_shuffles_in_place [of draw_zero "[''a'', ''b'', ''c'']" 1]
    by blast
qed

text \<open>The list after that call, computed, and the fixed mode, which leaves the list alone.\<close>

lemma get_cifar100_tasks_reorders_example:
  "fst (get_cifar100_tasks draw_zero [''a'', ''b'', ''c''] 10 False) = [''b'', ''c'', ''a'']"
  by (simp add: get_cifar100_tasks_def shuffle_def swap_def draw_zero_def Let_def)

lemma get_cifar100_tasks_fixed_frame:
  "fst (get_cifar100_tasks draw cls_names task_num True) = cls_names"
  by (simp add: get_cifar100_tasks_def)

section \<open>Properties of the incremental model state\<close>

text \<open>
  C2. Whatever extractor and weight vector are passed, whatever the body does to the
  model and however the scope ends (the body returns, the body raises, or the look-up of
  the last but one weight vector raises), the active feature extractor and the active
  weight vector after \<^verbatim>\<open>use_previous_model\<close> are the references that were active
  before it.
\<close>

theorem use_previous_model_restores:
  "feature_extractor (fst (use_previous_model fe_arg wv_arg body s)) = feature_extractor s \<and>
   current_weight_vectors (fst (use_previous_model fe_arg wv_arg body s)) =
     current_weight_vectors s"
  by (simp add: use_previous_model_def Let_def split: option.splits prod.splits)

text \<open>
  Asked for the previous model before any task has been learned, the scope raises
  \<open>IndexError\<close> without entering its body, and the model is as it was.
\<close>

lemma use_previous_model_before_first_task:
  "use_previous_model None None idle_body (init_iCaRL () 2) =
     (init_iCaRL () 2, Some IndexError)"
  by (simp add: use_previous_model_def init_iCaRL_def Let_def)

subsection \<open>The learned classes\<close>

lemma enter_learned_classes:
  "learned_classes (fst (set_new_task_enter init task s)) = learned_classes s"
  by (simp add: set_new_task_enter_def Let_def split: option.splits)

lemma scope_learned_classes:
  assumes "learned_classes (fst (body (fst (set_new_task_enter init task s)))) =
           learned_classes (fst (set_new_task_enter init task s))"
  shows "learned_classes (fst (set_new_task init task body s)) =
     (if snd (set_new_task_enter init task s) = None then learned_classes s @ task
      else learned_classes s)"
proof (cases "set_new_task_enter init task s")
  case (Pair s1 r)
  show ?thesis
  proof (cases r)
    case None
    obtain s2 r2 where b: "body s1 = (s2, r2)" by (cases "body s1")
    have "learned_classes s2 = learned_classes s"
      using assms Pair b enter_learned_classes [of init task s] by simp
    then show ?thesis
      using Pair None b by (simp add: set_new_task_def set_new_task_exit_def)
  next
    case (Some e)
    then show ?thesis
      using Pair enter_learned_classes [of init task s] by (simp add: set_new_task_def)
  qed
qed

text \<open>
  After a run, the learned classes are those before it followed by the classes of the
  first \<open>n\<close> tasks, where \<open>n\<close> counts the scopes whose body was entered.
\<close>

lemma learn_tasks_learned_classes:
  assumes frame: "\<forall>t s. learned_classes (fst (body t s)) = learned_classes s"
  shows "\<exists>n \<le> length tasks.
           learned_classes (fst (learn_tasks init body tasks s)) =
           learned_classes s @ concat (take n tasks)"
proof (induction tasks arbitrary: s)
  case Nil
  then show ?case by simp
next
  case (Cons t ts)
  obtain s' r where sc: "set_new_task (init t) t (body t) s = (s', r)"
    by (cases "set_new_task (init t) t (body t) s")
  have lc: "learned_classes s' =
     (if snd (set_new_task_enter (init t) t s) = None then learned_classes s @ t
      else learned_classes s)"
    using scope_learned_classes [of "body t" "init t" t s] frame sc by simp
  have entered: "r = None \<Longrightarrow> snd (set_new_task_enter (init t) t s) = None"
    using sc by (auto simp: set_new_task_def split: prod.splits option.splits)
  show ?case
  proof (cases r)
    case None
    from Cons.IH [of s'] obtain n where
      n: "n \<le> length ts"
         "learned_classes (fst (learn_tasks init body ts s')) =
          learned_classes s' @ concat (take n ts)"
      by blast
    have "learned_classes (fst (learn_tasks init body (t # ts) s)) =
          learned_classes s @ concat (take (Suc n) (t # ts))"
      using sc None n lc entered by simp
    moreover have "Suc n \<le> length (t # ts)" using n by simp
    ultimately show ?thesis by blast
  next
    case (Some e)
    show ?thesis
    proof (cases "snd (set_new_task_enter (init t) t s) = None")
      case True
      then have "learned_classes (fst (learn_tasks init body (t # ts) s)) =
          learned_classes s @ concat (take (Suc 0) (t # ts))"
        using sc Some lc by simp
      moreover have "Suc 0 \<le> length (t # ts)" by simp
      ultimately show ?thesis by blast
    next
      case False
      have "learned_classes s' = learned_classes s"
        by (simp only: lc False if_False)
      then have "learned_classes (fst (learn_tasks init body (t # ts) s)) =
          learned_classes s @ concat (take 0 (t # ts))"
        using sc Some by simp
      then show ?thesis by blast
    qed
  qed
qed

lemma distinct_concat_take:
  assumes "distinct (xs @ concat tasks)"
  shows "distinct (xs @ concat (take n tasks))"
proof -
  have "concat tasks = concat (take n tasks) @ concat (drop n tasks)"
    by (metis append_take_drop_id concat_append)
  then show ?thesis using assms by (metis append.assoc distinct_append)
qed

text \<open>
  C5. Let the body of a scope leave the list of learned classes alone. Then a
  \<^verbatim>\<open>set_new_task\<close> scope whose body is entered appends the task's classes to the
  learned classes once, whether the body returns or raises (a scope whose set-up raises
  never enters its body and appends nothing). And in a run over tasks that share no
  class with one another or with the classes learned before, no class is ever twice
  among the learned classes: not after any number of the tasks, and not when an
  exception has ended the run.
\<close>

theorem set_new_task_commits_once:
  assumes frame: "\<forall>t s. learned_classes (fst (body t s)) = learned_classes s"
      and disjoint: "distinct (learned_classes s0 @ concat tasks)"
  shows "learned_classes (fst (set_new_task init' task (body task) s)) =
           (if snd (set_new_task_enter init' task s) = None then learned_classes s @ task
            else learned_classes s)
         \<and> (\<forall>n. distinct (learned_classes (fst (learn_tasks init body (take n tasks) s0))))"
proof
  show "learned_classes (fst (set_new_task init' task (body task) s)) =
           (if snd (set_new_task_enter init' task s) = None then learned_classes s @ task
            else learned_classes s)"
    using scope_learned_classes [of "body task" init' task s] frame by simp
next
  show "\<forall>n. distinct (learned_classes (fst (learn_tasks init body (take n tasks) s0)))"
  proof
    fix n
    obtain k where
      k: "learned_classes (fst (learn_tasks init body (take n tasks) s0)) =
          learned_classes s0 @ concat (take k (take n tasks))"
      using learn_tasks_learned_classes [OF frame, of "take n tasks" init s0] by blast
    have "distinct (learned_classes s0 @ concat (take (min k n) tasks))"
      using disjoint by (rule distinct_concat_take)
    then show "distinct (learned_classes (fst (learn_tasks init body (take n tasks) s0)))"
      using k by simp
  qed
qed

theorem set_new_task_commits_once_witness:
  "(\<forall>t s. learned_classes (fst (failing_body t s)) = learned_classes s) \<and>
   distinct (learned_classes (init_iCaRL () 2) @ concat [[''apple'', ''bear''], [''cat'']]) \<and>
   learned_classes
     (fst (set_new_task (init_rows [''apple'', ''bear'']) [''apple'', ''bear'']
            (failing_body [''apple'', ''bear'']) (init_iCaRL () 2))) = [''apple'', ''bear''] \<and>
   distinct (learned_classes
     (fst (learn_tasks init_rows failing_body [[''apple'', ''bear''], [''cat'']] (init_iCaRL () 2))))"
proof -
  have frame: "\<forall>t s. learned_classes (fst (failing_body t s)) = learned_classes s"
    by (simp add: failing_body_def sgd_body_def split: option.splits)
  have disjoint:
    "distinct (learned_classes (init_iCaRL () 2) @ concat [[''apple'', ''bear''], [''cat'']])"
    by (simp add: init_iCaRL_def)
  have entered:
    "snd (set_new_task_enter (init_rows [''apple'', ''bear'']) [''apple'', ''bear'']
            (init_iCaRL () 2)) = None"
    by (simp add: set_new_task_enter_def init_iCaRL_def Let_def)
  note inst = set_new_task_commits_once [OF frame disjoint,
      of "init_rows [''apple'', ''bear'']" "[''apple'', ''bear'']" "init_iCaRL () 2" init_rows]
  have one: "learned_classes
     (fst (set_new_task (init_rows [''apple'', ''bear'']) [''apple'', ''bear'']
            (failing_body [''apple'', ''bear'']) (init_iCaRL () 2))) = [''apple'', ''bear'']"
    using inst entered by (simp add: init_iCaRL_def)
  have "distinct (learned_classes (fst (learn_tasks init_rows failing_body
           (take 2 [[''apple'', ''bear''], [''cat'']]) (init_iCaRL () 2))))"
    using inst by blast
  then have run: "distinct (learned_classes
     (fst (learn_tasks init_rows failing_body [[''apple'', ''bear''], [''cat'']] (init_iCaRL () 2))))"
    by simp
  show ?thesis using frame disjoint one run by blast
qed

subsection \<open>The weight vectors\<close>

lemma length_new_linear: "length (new_linear init n m) = m"
  by (simp add: new_linear_def)

lemma assign_rows_equal:
  "length src = n \<Longrightarrow> n \<le> length dst \<Longrightarrow> assign_rows dst n src = Some (src @ drop n dst)"
  by (simp add: assign_rows_def Let_def min_def)

text \<open>The set-up of the first scope, and of a later scope entered under the invariant.\<close>

lemma enter_first:
  assumes "feature_extractor s = Some fe" and "weight_vectors s = []"
  shows "set_new_task_enter init task s =
     (s\<lparr>current_task := Some task,
        current_weight_vectors := Some (next_ref s),
        linears := (linears s)(next_ref s :=
           new_linear init (feature_dim s) (length task + length (learned_classes s))),
        weight_vectors := [next_ref s],
        previous_feature_extractor := Some (Suc (next_ref s)),
        extractors := (extractors s)(Suc (next_ref s) := extractors s fe),
        next_ref := Suc (Suc (next_ref s))\<rparr>, None)"
  using assms by (simp add: set_new_task_enter_def Let_def)

lemma enter_next:
  assumes "feature_extractor s = Some fe" and "weight_vectors s \<noteq> []"
      and "last (weight_vectors s) \<noteq> next_ref s"
      and "length (linears s (last (weight_vectors s))) = length (learned_classes s)"
  shows "set_new_task_enter init task s =
     (s\<lparr>current_task := Some task,
        current_weight_vectors := Some (next_ref s),
        linears := (linears s)(next_ref s :=
           linears s (last (weight_vectors s)) @
           drop (length (learned_classes s))
             (new_linear init (feature_dim s) (length task + length (learned_classes s)))),
        weight_vectors := weight_vectors s @ [next_ref s],
        previous_feature_extractor := Some (Suc (next_ref s)),
        extractors := (extractors s)(Suc (next_ref s) := extractors s fe),
        next_ref := Suc (Suc (next_ref s))\<rparr>, None)"
  using assms by (simp add: set_new_task_enter_def Let_def assign_rows_equal length_new_linear)

lemma heads_ok_init: "heads_ok (init_iCaRL resnet d)"
  by (simp add: heads_ok_def init_iCaRL_def)

lemma enter_heads_ok:
  assumes "heads_ok s"
  shows "snd (set_new_task_enter init task s) = None"
    and "feature_extractor (fst (set_new_task_enter init task s)) = feature_extractor s"
    and "current_weight_vectors (fst (set_new_task_enter init task s)) = Some (next_ref s)"
    and "weight_vectors (fst (set_new_task_enter init task s)) = weight_vectors s @ [next_ref s]"
    and "next_ref s < next_ref (fst (set_new_task_enter init task s))"
    and "length (linears (fst (set_new_task_enter init task s)) (next_ref s)) =
           length task + length (learned_classes s)"
    and "weight_vectors s \<noteq> [] \<Longrightarrow>
           take (length (learned_classes s))
             (linears (fst (set_new_task_enter init task s)) (next_ref s)) =
           linears s (last (weight_vectors s))"
    and "weight_vectors s \<noteq> [] \<Longrightarrow>
           linears (fst (set_new_task_enter init task s)) (last (weight_vectors s)) =
           linears s (last (weight_vectors s))"
proof -
  obtain fe where fe: "feature_extractor s = Some fe"
    using assms by (auto simp: heads_ok_def)
  have nxt: "weight_vectors s \<noteq> [] \<Longrightarrow> last (weight_vectors s) \<noteq> next_ref s"
    using assms by (auto simp: heads_ok_def)
  have len: "weight_vectors s \<noteq> [] \<Longrightarrow>
      length (linears s (last (weight_vectors s))) = length (learned_classes s)"
    using assms by (simp add: heads_ok_def)
  note first = enter_first [OF fe, of init task]
  note later = enter_next [OF fe _ nxt len, of init task]
  show "snd (set_new_task_enter init task s) = None"
    by (cases "weight_vectors s = []") (simp_all add: first later)
  show "feature_extractor (fst (set_new_task_enter init task s)) = feature_extractor s"
    by (cases "weight_vectors s = []") (simp_all add: first later)
  show "current_weight_vectors (fst (set_new_task_enter init task s)) = Some (next_ref s)"
    by (cases "weight_vectors s = []") (simp_all add: first later)
  show "weight_vectors (fst (set_new_task_enter init task s)) = weight_vectors s @ [next_ref s]"
    by (cases "weight_vectors s = []") (simp_all add: first later)
  show "next_ref s < next_ref (fst (set_new_task_enter init task s))"
    by (cases "weight_vectors s = []") (simp_all add: first later)
  show "length (linears (fst (set_new_task_enter init task s)) (next_ref s)) =
           length task + length (learned_classes s)"
    by (cases "weight_vectors s = []") (simp_all add: first later length_new_linear len)
  show "take (length (learned_classes s))
             (linears (fst (set_new_task_enter init task s)) (next_ref s)) =
           linears s (last (weight_vectors s))" if "weight_vectors s \<noteq> []"
    using that by (simp add: later len)
  show "linears (fst (set_new_task_enter init task s)) (last (weight_vectors s)) =
           linears s (last (weight_vectors s))" if "weight_vectors s \<noteq> []"
    using that nxt by (simp add: later)
qed

text \<open>A scope with a body that only trains keeps the invariant, however the body ends.\<close>

lemma scope_heads_ok:
  assumes body: "trains_only body" and ok: "heads_ok s"
  shows "heads_ok (fst (set_new_task init task (body task) s))
       \<and> weight_vectors (fst (set_new_task init task (body task) s)) \<noteq> []"
proof -
  obtain s1 where s1: "set_new_task_enter init task s = (s1, None)"
    using enter_heads_ok(1) [OF ok, of init task] by (cases "set_new_task_enter init task s") simp
  obtain s2 r where b: "body task s1 = (s2, r)" by (cases "body task s1")
  have fin: "fst (set_new_task init task (body task) s) = set_new_task_exit task s2"
    by (simp add: set_new_task_def s1 b)
  have frame: "weight_vectors s2 = weight_vectors s1" "learned_classes s2 = learned_classes s1"
       "feature_extractor s2 = feature_extractor s1" "next_ref s1 \<le> next_ref s2"
       "length (linears s2 (next_ref s)) = length (linears s1 (next_ref s))"
    using body b unfolding trains_only_def by (metis fst_conv)+
  have e: "feature_extractor s1 = feature_extractor s"
      "weight_vectors s1 = weight_vectors s @ [next_ref s]"
      "next_ref s < next_ref s1"
      "length (linears s1 (next_ref s)) = length task + length (learned_classes s)"
    using enter_heads_ok(2,4,5,6) [OF ok, of init task] s1 by simp_all
  have lc: "learned_classes s1 = learned_classes s"
    using s1 by (metis enter_learned_classes fst_conv)
  show ?thesis
    using ok frame e lc by (simp add: fin set_new_task_exit_def heads_ok_def)
qed

lemma learn_tasks_heads_ok:
  assumes body: "trains_only body"
  shows "heads_ok s \<Longrightarrow> heads_ok (fst (learn_tasks init body tasks s))
       \<and> (tasks \<noteq> [] \<or> weight_vectors s \<noteq> [] \<longrightarrow>
            weight_vectors (fst (learn_tasks init body tasks s)) \<noteq> [])"
proof (induction tasks arbitrary: s)
  case Nil
  then show ?case by simp
next
  case (Cons t ts)
  obtain s' r where sc: "set_new_task (init t) t (body t) s = (s', r)"
    by (cases "set_new_task (init t) t (body t) s")
  have s': "heads_ok s'" "weight_vectors s' \<noteq> []"
    using scope_heads_ok [OF body Cons.prems, of "init t" t] sc by simp_all
  show ?case
  proof (cases r)
    case None
    then show ?thesis using sc s' Cons.IH [of s'] by simp
  next
    case (Some e)
    then show ?thesis using sc s' by simp
  qed
qed

text \<open>
  C6. Take the state after a run, from the initial model, over at least one task with
  bodies that only train, and open the next scope for any task. The set-up raises
  nothing; the new weight vector is active and is the newest entry of the list; it has
  as many rows as the task has classes plus the number of classes learned before; the
  previous weight vector has one row per learned class, and these rows, in order, are
  the leading rows of the new one; the previous weight vector itself is unchanged.
\<close>

theorem set_new_task_warm_start:
  assumes "trains_only body" and "tasks \<noteq> []"
  shows "let s = fst (learn_tasks init body tasks (init_iCaRL resnet d));
             s' = fst (set_new_task_enter init' task s);
             previous_weight_vector = linears s (last (weight_vectors s))
         in snd (set_new_task_enter init' task s) = None
          \<and> current_weight_vectors s' = Some (next_ref s)
          \<and> last (weight_vectors s') = next_ref s
          \<and> length (linears s' (next_ref s)) = length task + length (learned_classes s)
          \<and> length previous_weight_vector = length (learned_classes s)
          \<and> take (length (learned_classes s)) (linears s' (next_ref s)) = previous_weight_vector
          \<and> linears s' (last (weight_vectors s)) = previous_weight_vector"
proof -
  define s where "s = fst (learn_tasks init body tasks (init_iCaRL resnet d))"
  have ok: "heads_ok s" and wv: "weight_vectors s \<noteq> []"
    using learn_tasks_heads_ok [OF assms(1) heads_ok_init, of init tasks resnet d] assms(2)
    by (simp_all add: s_def)
  have "length (linears s (last (weight_vectors s))) = length (learned_classes s)"
    using ok wv by (simp add: heads_ok_def)
  then have "snd (set_new_task_enter init' task s) = None
          \<and> current_weight_vectors (fst (set_new_task_enter init' task s)) = Some (next_ref s)
          \<and> last (weight_vectors (fst (set_new_task_enter init' task s))) = next_ref s
          \<and> length (linears (fst (set_new_task_enter init' task s)) (next_ref s)) =
              length task + length (learned_classes s)
          \<and> length (linears s (last (weight_vectors s))) = length (learned_classes s)
          \<and> take (length (learned_classes s))
               (linears (fst (set_new_task_enter init' task s)) (next_ref s)) =
              linears s (last (weight_vectors s))
          \<and> linears (fst (set_new_task_enter init' task s)) (last (weight_vectors s)) =
              linears s (last (weight_vectors s))"
    using enter_heads_ok [OF ok, of init' task] wv by simp
  then show ?thesis
    unfolding s_def [symmetric] Let_def .
qed

lemma trains_only_sgd_body: "trains_only sgd_body"
  by (simp add: trains_only_def sgd_body_def split: option.splits)

theorem set_new_task_warm_start_witness:
  "trains_only sgd_body \<and> [[''apple'', ''bear'']] \<noteq> [] \<and>
   (let s = fst (learn_tasks init_rows sgd_body [[''apple'', ''bear'']] (init_iCaRL () 2));
        s' = fst (set_new_task_enter (init_rows [''cat'']) [''cat''] s);
        previous_weight_vector = linears s (last (weight_vectors s))
    in snd (set_new_task_enter (init_rows [''cat'']) [''cat''] s) = None
     \<and> current_weight_vectors s' = Some (next_ref s)
     \<and> last (weight_vectors s') = next_ref s
     \<and> length (linears s' (next_ref s)) = length [''cat''] + length (learned_classes s)
     \<and> length previous_weight_vector = length (learned_classes s)
     \<and> take (length (learned_classes s)) (linears s' (next_ref s)) = previous_weight_vector
     \<and> linears s' (last (weight_vectors s)) = previous_weight_vector)"
proof -
  have h1: "trains_only sgd_body"
    by (rule trains_only_sgd_body)
  have h2: "[[''apple'', ''bear'']] \<noteq> []"
    by simp
  show ?thesis
    using h1 h2
      set_new_task_warm_start [OF h1 h2, of init_rows "()" 2 "init_rows [''cat'']" "[''cat'']"]
    by blast
qed

text \<open>
  The same run, computed: the first head is trained from rows \<open>0\<close> and \<open>1\<close> to
  rows \<open>1\<close> and \<open>2\<close>, and the head made for the next task starts with these two rows.
\<close>

lemma warm_start_example:
  "linears (fst (set_new_task_enter (init_rows [''cat'']) [''cat'']
       (fst (learn_tasks init_rows sgd_body [[''apple'', ''bear'']] (init_iCaRL () 2))))) 3 =
     [[1, 1], [2, 2], [2, 2]]"
  by (simp add: init_iCaRL_def set_new_task_def set_new_task_enter_def set_new_task_exit_def
        Let_def sgd_body_def new_linear_def init_rows_def upt_conv_Cons assign_rows_def)

section \<open>Properties of the task learner and the evaluator\<close>

subsection \<open>Failures of the sink\<close>

lemma propagates_append:
  "propagates sink cs None \<Longrightarrow> propagates sink cs' r \<Longrightarrow> propagates sink (cs @ cs') r"
  by (auto simp: propagates_def)

lemma epoch_body_propagates:
  "propagates sink (fst (snd (epoch_body sink train_epoch test_epoch task_id epoch st)))
     (snd (snd (epoch_body sink train_epoch test_epoch task_id epoch st)))"
  by (auto simp: epoch_body_def propagates_def Let_def split: prod.splits sum.splits option.splits)

lemma epochs_propagates:
  "propagates sink (fst (snd (epochs sink train_epoch test_epoch task_id es st)))
     (snd (snd (epochs sink train_epoch test_epoch task_id es st)))"
proof (induction es arbitrary: st)
  case Nil
  then show ?case by (simp add: propagates_def)
next
  case (Cons epoch rest)
  obtain st1 cs r where b: "epoch_body sink train_epoch test_epoch task_id epoch st = (st1, cs, r)"
    by (cases "epoch_body sink train_epoch test_epoch task_id epoch st")
  have p: "propagates sink cs r"
    using epoch_body_propagates [of sink train_epoch test_epoch task_id epoch st] b by simp
  show ?case
  proof (cases r)
    case (Some e)
    then show ?thesis using b p by simp
  next
    case None
    obtain st2 cs' r' where e: "epochs sink train_epoch test_epoch task_id rest st1 = (st2, cs', r')"
      by (cases "epochs sink train_epoch test_epoch task_id rest st1")
    have "propagates sink cs' r'"
      using Cons.IH [of st1] e by simp
    then have "propagates sink (cs @ cs') r'"
      using p None by (simp add: propagates_append)
    then show ?thesis using b None e by simp
  qed
qed

lemma task_learner_propagates:
  "propagates sink (fst (snd (task_learner sink train_epoch test_epoch task_id st)))
     (snd (snd (task_learner sink train_epoch test_epoch task_id st)))"
proof -
  obtain st1 cs r where
    e: "epochs sink train_epoch test_epoch task_id [0 ..< num_epoch] st = (st1, cs, r)"
    by (cases "epochs sink train_epoch test_epoch task_id [0 ..< num_epoch] st")
  have "propagates sink cs r"
    using epochs_propagates [of sink train_epoch test_epoch task_id "[0 ..< num_epoch]" st] e
    by simp
  then show ?thesis
    using e by (cases r) (simp_all add: task_learner_def Let_def)
qed

lemma test_on_tasks_propagates:
  "propagates sink (fst (test_on_tasks sink cl_matrix task_id learned_tasks is))
     (snd (test_on_tasks sink cl_matrix task_id learned_tasks is))"
proof (induction "is")
  case Nil
  then show ?case by (simp add: propagates_def)
next
  case (Cons i rest)
  then show ?case
    by (auto simp: propagates_def Let_def split: prod.splits option.splits)
qed

lemma log_metrics_propagates:
  "propagates sink (fst (log_metrics sink fns m task_id)) (raised (snd (log_metrics sink fns m task_id)))"
  by (auto simp: log_metrics_def propagates_def raised_def Let_def split: option.splits)

lemma tester_propagates:
  "propagates sink
     (fst (continual_learning_ability_tester sink fns cl_matrix task_id learned_tasks loaders mdl))
     (raised (snd (continual_learning_ability_tester sink fns cl_matrix task_id learned_tasks
        loaders mdl)))"
proof -
  obtain cs r where
    t: "test_on_tasks sink cl_matrix task_id learned_tasks [0 ..< length loaders] = (cs, r)"
    by (cases "test_on_tasks sink cl_matrix task_id learned_tasks [0 ..< length loaders]")
  have p: "propagates sink cs r"
    using test_on_tasks_propagates [of sink cl_matrix task_id learned_tasks "[0 ..< length loaders]"] t
    by simp
  show ?thesis
  proof (cases r)
    case (Some e)
    then show ?thesis
      using t p by (simp add: continual_learning_ability_tester_def raised_def)
  next
    case None
    obtain cs1 r1 where
      l: "log_metrics sink fns (map (take (task_id + 1)) (take (task_id + 1) cl_matrix)) task_id
          = (cs1, r1)"
      by (cases "log_metrics sink fns (map (take (task_id + 1)) (take (task_id + 1) cl_matrix)) task_id")
    have p1: "propagates sink cs1 (raised r1)"
      using log_metrics_propagates [of sink fns
          "map (take (task_id + 1)) (take (task_id + 1) cl_matrix)" task_id] l by simp
    have all: "propagates sink cs None"
      using p None by simp
    show ?thesis
      using t None l p1 all
      by (auto simp: continual_learning_ability_tester_def raised_def propagates_def Let_def
            split: sum.splits option.splits)
  qed
qed

text \<open>
  C8. The claim: a failure raised by the logger or the summary writer never leaves the
  task learner or the evaluator. The code with a sink that raises on every call: the
  task learner raises at its first \<^verbatim>\<open>writer.add_scalar\<close>, the evaluator at its first
  \<^verbatim>\<open>logger.info\<close>.
\<close>

theorem sink_failure_aborts_counterexample:
  "snd (snd (task_learner broken_sink train_ok test_ok 0 learner0)) = Some SinkError \<and>
   snd (continual_learning_ability_tester broken_sink corner_metrics (zeros 1) 0
          [[''apple'']] [()] ()) = Inl SinkError"
  by (simp add: task_learner_def num_epoch_def log_times_def epoch_body_def broken_sink_def
        train_ok_def test_ok_def learner0_def continual_learning_ability_tester_def zeros_def
        Let_def upt_conv_Cons)

text \<open>
  C8, as amended: neither function catches anything. When a call that the task learner
  makes to the sink raises, the task learner raises that exception. And, whatever the
  task learner did, when a call that the evaluator makes to the sink raises, the
  evaluator raises that exception.
\<close>

theorem sink_failure_propagates:
  "(sink c = Some e \<and>
    c \<in> set (fst (snd (task_learner sink train_epoch test_epoch task_id st)))
      \<longrightarrow> snd (snd (task_learner sink train_epoch test_epoch task_id st)) = Some e) \<and>
   (sink' c' = Some e' \<and>
    c' \<in> set (fst (continual_learning_ability_tester sink' fns cl_matrix k learned_tasks
                     loaders mdl))
      \<longrightarrow> snd (continual_learning_ability_tester sink' fns cl_matrix k learned_tasks
                 loaders mdl) = Inl e')"
proof (intro conjI impI)
  assume "sink c = Some e \<and>
    c \<in> set (fst (snd (task_learner sink train_epoch test_epoch task_id st)))"
  then show "snd (snd (task_learner sink train_epoch test_epoch task_id st)) = Some e"
    using task_learner_propagates [of sink train_epoch test_epoch task_id st]
    by (auto simp: propagates_def)
next
  assume "sink' c' = Some e' \<and>
    c' \<in> set (fst (continual_learning_ability_tester sink' fns cl_matrix k learned_tasks
                     loaders mdl))"
  then have "raised (snd (continual_learning_ability_tester sink' fns cl_matrix k learned_tasks
                loaders mdl)) = Some e'"
    using tester_propagates [of sink' fns cl_matrix k learned_tasks loaders mdl]
    by (auto simp: propagates_def)
  then show "snd (continual_learning_ability_tester sink' fns cl_matrix k learned_tasks
                loaders mdl) = Inl e'"
    by (simp add: raised_def split: sum.splits)
qed

text \<open>
  Two runs: a logger that raises in the epoch loop stops the task learner at its tenth
  epoch, and a writer that raises on \<^verbatim>\<open>add_figure\<close> stops the evaluator after the
  metrics have been written.
\<close>

theorem sink_failure_propagates_witness:
  "logger_sink (Logger_info_epoch 10 1 (1 / 2)) = Some SinkError \<and>
   Logger_info_epoch 10 1 (1 / 2)
     \<in> set (fst (snd (task_learner logger_sink train_ok test_ok 0 learner0))) \<and>
   snd (snd (task_learner logger_sink train_ok test_ok 0 learner0)) = Some SinkError \<and>
   figure_sink (Add_figure (zeros 2) 1) = Some SinkError \<and>
   Add_figure (zeros 2) 1
     \<in> set (fst (continual_learning_ability_tester figure_sink corner_metrics (zeros 2) 1
                   [[''apple''], [''bear'']] [(), ()] ())) \<and>
   snd (continual_learning_ability_tester figure_sink corner_metrics (zeros 2) 1
          [[''apple''], [''bear'']] [(), ()] ()) = Inl SinkError"
proof -
  have h1: "logger_sink (Logger_info_epoch 10 1 (1 / 2)) = Some SinkError"
    by (simp add: logger_sink_def)
  have h2: "Logger_info_epoch 10 1 (1 / 2)
      \<in> set (fst (snd (task_learner logger_sink train_ok test_ok 0 learner0)))"
    by (simp add: task_learner_def num_epoch_def log_times_def epoch_body_def logger_sink_def
          train_ok_def test_ok_def learner0_def Let_def upt_conv_Cons)
  have h3: "figure_sink (Add_figure (zeros 2) 1) = Some SinkError"
    by (simp add: figure_sink_def)
  have h4: "Add_figure (zeros 2) 1
      \<in> set (fst (continual_learning_ability_tester figure_sink corner_metrics (zeros 2) 1
                    [[''apple''], [''bear'']] [(), ()] ()))"
    by (simp add: continual_learning_ability_tester_def log_metrics_def zeros_def
          figure_sink_def Let_def upt_conv_Cons)
  show ?thesis
    using h1 h2 h3 h4
      sink_failure_propagates [of logger_sink "Logger_info_epoch 10 1 (1 / 2)" SinkError
        train_ok test_ok 0 learner0 figure_sink "Add_figure (zeros 2) 1" SinkError
        corner_metrics "zeros 2" 1 "[[''apple''], [''bear'']]" "[(), ()]" "()"]
    by blast
qed

subsection \<open>What the evaluator returns\<close>

lemma test_on_tasks_quiet:
  assumes quiet: "\<forall>c. sink c = None"
      and idx: "\<forall>i \<in> set is. i < length cl_matrix \<and> task_id < length (cl_matrix ! i)
                  \<and> i < length learned_tasks"
  shows "snd (test_on_tasks sink cl_matrix task_id learned_tasks is) = None"
  using idx
proof (induction "is")
  case Nil
  then show ?case by simp
next
  case (Cons i rest)
  then show ?case
    by (auto simp: Let_def quiet split: prod.splits)
qed

lemma log_metrics_quiet:
  assumes quiet: "\<forall>c. sink c = None"
  shows "snd (log_metrics sink fns m task_id) =
     Inr (get_backward_transfer fns m, get_forgetting_rate fns m,
          get_last_setp_accuracy fns m, get_average_incremental_accuracy fns m)"
  by (simp add: log_metrics_def Let_def quiet)

text \<open>
  C9. The claim: for every task index the evaluator returns the matrix, with the
  metrics or with \<open>None\<close>, and raises nothing. The code for the first task (index
  \<open>0\<close>) with a writer that raises on \<^verbatim>\<open>add_figure\<close>: the evaluator raises.
\<close>

theorem tester_raises_counterexample:
  "snd (continual_learning_ability_tester figure_sink corner_metrics (zeros 1) 0
          [[''apple'']] [()] ()) = Inl SinkError"
  by (simp add: continual_learning_ability_tester_def zeros_def figure_sink_def Let_def
        upt_conv_Cons)

text \<open>
  C9, as amended: let every call to the sink succeed, and let the indices be in range
  (the matrix has a row for every loader and a column for the task index, and there is
  a learned task for every loader); the metric functions return a number for every
  matrix. Then the evaluator raises nothing; it returns the matrix of its closure
  together with the dictionary of the four metrics of the leading sub-matrix when the
  task index is at least one, and together with \<open>None\<close> when the task index is zero.
\<close>

theorem tester_returns_matrix_and_metrics:
  assumes quiet: "\<forall>c. sink c = None"
      and rows: "length learned_task_loaders \<le> length cl_matrix"
      and cols: "\<forall>row \<in> set cl_matrix. task_id < length row"
      and tasks: "length learned_task_loaders \<le> length learned_tasks"
  shows "snd (continual_learning_ability_tester sink fns cl_matrix task_id learned_tasks
               learned_task_loaders mdl) =
     Inr (cl_matrix,
          if task_id \<ge> 1
          then let current_cl_matrix = map (take (task_id + 1)) (take (task_id + 1) cl_matrix)
               in Some [(''BWT'', get_backward_transfer fns current_cl_matrix),
                        (''Forgetting Rate'', get_forgetting_rate fns current_cl_matrix),
                        (''Last Step Acc'', get_last_setp_accuracy fns current_cl_matrix),
                        (''Average Acc'', get_average_incremental_accuracy fns current_cl_matrix)]
          else None)"
proof -
  have "\<forall>i \<in> set [0 ..< length learned_task_loaders].
          i < length cl_matrix \<and> task_id < length (cl_matrix ! i) \<and> i < length learned_tasks"
    using rows cols tasks by auto
  then have t: "snd (test_on_tasks sink cl_matrix task_id learned_tasks
                       [0 ..< length learned_task_loaders]) = None"
    using quiet by (rule test_on_tasks_quiet [rotated])
  obtain cs where
    t': "test_on_tasks sink cl_matrix task_id learned_tasks [0 ..< length learned_task_loaders]
         = (cs, None)"
    using t by (cases "test_on_tasks sink cl_matrix task_id learned_tasks
                         [0 ..< length learned_task_loaders]") simp
  obtain cs1 where
    l: "log_metrics sink fns (map (take (task_id + 1)) (take (task_id + 1) cl_matrix)) task_id =
        (cs1, Inr (get_backward_transfer fns (map (take (task_id + 1)) (take (task_id + 1) cl_matrix)),
                   get_forgetting_rate fns (map (take (task_id + 1)) (take (task_id + 1) cl_matrix)),
                   get_last_setp_accuracy fns (map (take (task_id + 1)) (take (task_id + 1) cl_matrix)),
                   get_average_incremental_accuracy fns
                     (map (take (task_id + 1)) (take (task_id + 1) cl_matrix))))"
    using log_metrics_quiet [OF quiet, of fns
        "map (take (task_id + 1)) (take (task_id + 1) cl_matrix)" task_id]
    by (cases "log_metrics sink fns (map (take (task_id + 1)) (take (task_id + 1) cl_matrix)) task_id")
       simp
  show ?thesis
    unfolding continual_learning_ability_tester_def t' l Let_def
    by (simp add: quiet)
qed

theorem tester_returns_matrix_and_metrics_witness:
  "(\<forall>c. quiet_sink c = None) \<and>
   length [(), ()] \<le> length (zeros 2) \<and>
   map length (zeros 2) = [2, 2] \<and>
   length [(), ()] \<le> length [[''apple''], [''bear'']] \<and>
   snd (continual_learning_ability_tester quiet_sink corner_metrics (zeros 2) 1
          [[''apple''], [''bear'']] [(), ()] ()) =
     Inr (zeros 2,
          Some [(''BWT'', 0), (''Forgetting Rate'', 0), (''Last Step Acc'', 0), (''Average Acc'', 0)])"
proof -
  have h1: "\<forall>c. quiet_sink c = None" by (simp add: quiet_sink_def)
  have h2: "length [(), ()] \<le> length (zeros 2)" by (simp add: zeros_def)
  have h3: "\<forall>row \<in> set (zeros 2). 1 < length row" by (simp add: zeros_def)
  have cols: "map length (zeros 2) = [2, 2]" by (simp add: zeros_def numeral_2_eq_2)
  have h4: "length [(), ()] \<le> length [[''apple''], [''bear'']]" by simp
  have "snd (continual_learning_ability_tester quiet_sink corner_metrics (zeros 2) 1
          [[''apple''], [''bear'']] [(), ()] ()) =
     Inr (zeros 2,
          Some [(''BWT'', 0), (''Forgetting Rate'', 0), (''Last Step Acc'', 0), (''Average Acc'', 0)])"
    using tester_returns_matrix_and_metrics [OF h1 h2 h3 h4, of corner_metrics "()"]
    by (simp add: corner_metrics_def zeros_def Let_def numeral_2_eq_2)
  then show ?thesis using h1 h2 cols h4 by blast
qed

text \<open>The matrix that the evaluator returns is the one of its closure, whatever else happens.\<close>

lemma tester_matrix_frame:
  "snd (continual_learning_ability_tester sink fns cl_matrix task_id learned_tasks loaders mdl)
     = Inr (m, r) \<Longrightarrow> m = cl_matrix"
  by (auto simp: continual_learning_ability_tester_def Let_def
        split: prod.splits option.splits sum.splits if_splits)

text \<open>
  C1. The claim: after the evaluator has run for task \<open>k\<close>, every entry \<open>M[i, k]\<close>
  with \<open>i \<le> k\<close> holds the accuracy measured on task \<open>i\<close>. The code for two tasks,
  called after the second one (\<open>k = 1\<close>) with a sink that accepts every call, for any
  model and any loaders: nothing is measured, the matrix comes back with zeros in
  column \<open>1\<close> as everywhere else, and the metrics are those of the zero matrix.
\<close>

theorem tester_leaves_matrix_zero:
  "snd (get_continual_learning_ability_tester quiet_sink fns 2 1 [[''apple''], [''bear'']]
          [loader0, loader1] mdl) =
     Inr ([[0, 0], [0, 0]],
          Some [(''BWT'', get_backward_transfer fns [[0, 0], [0, 0]]),
                (''Forgetting Rate'', get_forgetting_rate fns [[0, 0], [0, 0]]),
                (''Last Step Acc'', get_last_setp_accuracy fns [[0, 0], [0, 0]]),
                (''Average Acc'', get_average_incremental_accuracy fns [[0, 0], [0, 0]])])"
  by (simp add: get_continual_learning_ability_tester_def continual_learning_ability_tester_def
        zeros_def quiet_sink_def log_metrics_def Let_def upt_conv_Cons numeral_2_eq_2)

end
